theory Spec2Isabelle
  imports Main "HOL-Library.Sublist" "HOL-Library.AList"
begin

section \<open>JavaScript string primitives used by the pipeline\<close>

text \<open>
  Strings are lists of characters. The model covers ASCII text: \<open>toUpperCase\<close> and
  \<open>toLowerCase\<close> change the 26 Latin letters only, and the whitespace class \<open>\s\<close> is
  space, tab, line feed, vertical tab, form feed and carriage return.
\<close>

type_synonym bytes = "nat list"

definition char_toUpperCase :: "char \<Rightarrow> char" where
  "char_toUpperCase c =
     (let n = (of_char c :: nat) in if 97 \<le> n \<and> n \<le> 122 then char_of (n - 32) else c)"

definition char_toLowerCase :: "char \<Rightarrow> char" where
  "char_toLowerCase c =
     (let n = (of_char c :: nat) in if 65 \<le> n \<and> n \<le> 90 then char_of (n + 32) else c)"

definition toUpperCase :: "string \<Rightarrow> string" where
  "toUpperCase s = map char_toUpperCase s"

definition toLowerCase :: "string \<Rightarrow> string" where
  "toLowerCase s = map char_toLowerCase s"

definition is_space :: "char \<Rightarrow> bool" where
  "is_space c = (let n = (of_char c :: nat) in n = 32 \<or> (9 \<le> n \<and> n \<le> 13))"

text \<open>\<^verbatim>\<open>s.replace(/\s+/g, "_")\<close>: every maximal run of whitespace becomes one underscore.\<close>

function replace_spaces :: "string \<Rightarrow> string" where
  "replace_spaces [] = []"
| "replace_spaces (c # cs) =
     (if is_space c then CHR ''_'' # replace_spaces (dropWhile is_space cs)
      else c # replace_spaces cs)"
  by pat_completeness auto
termination
  by (relation "measure length") (auto simp: length_dropWhile_le less_Suc_eq_le)

text \<open>
  \<^verbatim>\<open>s.replace(pat, rep)\<close> with a string pattern: only the first occurrence of
  \<open>pat\<close> is replaced (the replacement texts used here contain no \<open>$\<close>).
\<close>

fun replace_first :: "string \<Rightarrow> string \<Rightarrow> string \<Rightarrow> string" where
  "replace_first pat rep [] = (if pat = [] then rep else [])"
| "replace_first pat rep (c # cs) =
     (if prefix pat (c # cs) then rep @ drop (length pat) (c # cs)
      else c # replace_first pat rep cs)"

text \<open>\<^verbatim>\<open>s.includes(sub)\<close>: \<open>sub\<close> occurs in \<open>s\<close> as a contiguous substring.\<close>

fun includes_str :: "string \<Rightarrow> string \<Rightarrow> bool" where
  "includes_str [] sub = (sub = [])"
| "includes_str (c # cs) sub = (prefix sub (c # cs) \<or> includes_str cs sub)"

text \<open>\<^verbatim>\<open>s.endsWith(suf)\<close>.\<close>

definition endsWith :: "string \<Rightarrow> string \<Rightarrow> bool" where
  "endsWith s suf = prefix (rev suf) (rev s)"

text \<open>\<^verbatim>\<open>s.trim()\<close>.\<close>

definition trim :: "string \<Rightarrow> string" where
  "trim s = rev (dropWhile is_space (rev (dropWhile is_space s)))"

text \<open>
  \<^verbatim>\<open>s.split(sep)\<close> for a non-empty separator: \<open>split_acc\<close> carries the piece
  being read, reversed.
\<close>

fun split_acc :: "string \<Rightarrow> string \<Rightarrow> string \<Rightarrow> string list" where
  "split_acc sep acc [] = [rev acc]"
| "split_acc sep acc (c # cs) =
     (if sep \<noteq> [] \<and> prefix sep (c # cs)
      then rev acc # split_acc sep [] (drop (length sep) (c # cs))
      else split_acc sep (c # acc) cs)"

definition split_str :: "string \<Rightarrow> string \<Rightarrow> string list" where
  "split_str s sep = split_acc sep [] s"

text \<open>\<^verbatim>\<open>xs.join(sep)\<close>.\<close>

fun join_str :: "string list \<Rightarrow> string \<Rightarrow> string" where
  "join_str [] sep = []"
| "join_str [x] sep = x"
| "join_str (x # y # ys) sep = x @ sep @ join_str (y # ys) sep"

text \<open>Numbers in template literals: a non-negative integer prints in decimal, NaN as NaN.\<close>

datatype js_number = Num nat | NaN

definition digit_char :: "nat \<Rightarrow> char" where
  "digit_char d = char_of (48 + d)"

fun decimal :: "nat \<Rightarrow> string" where
  "decimal n = (if n < 10 then [digit_char n] else decimal (n div 10) @ [digit_char (n mod 10)])"

declare decimal.simps [simp del]

fun number_toString :: "js_number \<Rightarrow> string" where
  "number_toString (Num n) = decimal n"
| "number_toString NaN = ''NaN''"

section \<open>Data model\<close>

text \<open>
  The order payload of the webhook contract. A property value and a variant title may be
  \<open>null\<close> or absent (\<open>None\<close>); \<open>properties\<close> itself may be absent, which is what the
  optional chaining \<^verbatim>\<open>item.properties?.find(...)\<close> guards against.
\<close>

record property =
  prop_name :: string
  prop_value :: "string option"

record line_item =
  item_id :: js_number
  item_title :: string
  variant_title :: "string option"
  properties :: "property list option"

record payload =
  order_name :: string
  order_note :: "string option"
  admin_graphql_api_id :: string
  line_items :: "line_item list"

text \<open>The files of an archive, as \<^verbatim>\<open>Object.entries(zip.files)\<close> lists them.\<close>

type_synonym zip_files = "(string \<times> bytes) list"

record put_request =
  put_bucket :: string
  put_key :: string
  put_body :: bytes
  put_content_type :: string

record mutation =
  mutation_id :: string
  mutation_tags :: "string list"
  mutation_note :: string

text \<open>
  The answer to \<^verbatim>\<open>addTagsAndUpdateNote\<close>: the \<open>userErrors\<close> of each half, \<open>None\<close>
  where that part of the response is missing.
\<close>

record mutation_response =
  tagsAdd_userErrors :: "string list option"
  orderUpdate_userErrors :: "string list option"

text \<open>The order query's node (replay path).\<close>

record line_item_node =
  node_gid :: string
  node_title :: string
  node_variantTitle :: "string option"
  customAttributes :: "(string \<times> string option) list"

record order_node =
  order_gid :: string
  order_node_name :: string
  order_node_note :: "string option"
  order_tags :: "string list"
  lineItems :: "line_item_node list"

datatype query_result = QueryThrows | NoOrder | Order order_node

text \<open>Every exception the pipeline can meet, as a value.\<close>

datatype error =
    TypeError
  | GetObjectFailed string
  | ZipLoadFailed string
  | TemplatePngNotFound string
  | SharpFailed
  | PutObjectFailed string
  | GraphqlRequestFailed
  | UserErrors "string list" "string list"

text \<open>
  What the program does to the outside: the objects it asks the template store for, the
  objects it writes, the order mutations and order queries it sends, the errors it
  reports on the console, and how often it has read the clock.
\<close>

record world =
  clock_reads :: nat
  s3_gets :: "(string \<times> string) list"
  s3_puts :: "put_request list"
  mutations :: "mutation list"
  queries :: "string list"
  console_errors :: "error list"

text \<open>
  The collaborators and the configuration. \<open>s3_get\<close>, \<open>loadAsync\<close> and
  \<open>sharp_composite\<close> answer \<open>None\<close> when the call, or reading what it returns, throws;
  \<open>s3_put_ok\<close> says whether a write succeeds; \<open>date_now k\<close> is reading number \<open>k\<close> of
  \<^verbatim>\<open>Date.now()\<close>; \<open>gql_mutation\<close> answers \<open>None\<close> when the request throws; the order
  query sees the world, and so the mutations already sent.
\<close>

record env =
  AWS_TEMPLATES_BUCKET :: string
  AWS_DESIGNS_BUCKET :: string
  AWS_REGION :: string
  s3_get :: "string \<Rightarrow> string \<Rightarrow> bytes option"
  loadAsync :: "bytes \<Rightarrow> zip_files option"
  sharp_composite :: "bytes \<Rightarrow> string \<Rightarrow> bytes option"
  generateAsync :: "zip_files \<Rightarrow> bytes"
  s3_put_ok :: "put_request \<Rightarrow> bool"
  date_now :: "nat \<Rightarrow> nat"
  gql_mutation :: "mutation \<Rightarrow> mutation_response option"
  gql_query :: "world \<Rightarrow> string \<Rightarrow> query_result"

section \<open>Steps shared by the live and the replay path\<close>

text \<open>
  \<^verbatim>\<open>item.properties?.find(p => p.name === "call_sign")\<close> and the guard
  \<^verbatim>\<open>if (prop?.value)\<close>: the value of the first property named \<open>call_sign\<close>, when it
  is a non-empty string.
\<close>

definition call_sign_prop :: "line_item \<Rightarrow> property option" where
  "call_sign_prop item =
     (case properties item of
        None \<Rightarrow> None
      | Some ps \<Rightarrow> find (\<lambda>p. prop_name p = ''call_sign'') ps)"

definition call_sign_value :: "line_item \<Rightarrow> string option" where
  "call_sign_value item =
     (case call_sign_prop item of
        None \<Rightarrow> None
      | Some prop \<Rightarrow>
          (case prop_value prop of
             None \<Rightarrow> None
           | Some v \<Rightarrow> if v = [] then None else Some v))"

text \<open>
  \<^verbatim>\<open>payload.line_items.filter(i => i.properties?.some(p => p.name === "call_sign")).length\<close>
\<close>

definition has_call_sign_prop :: "line_item \<Rightarrow> bool" where
  "has_call_sign_prop i =
     (case properties i of
        None \<Rightarrow> False
      | Some ps \<Rightarrow> list_ex (\<lambda>p. prop_name p = ''call_sign'') ps)"

definition totalCustomItems :: "payload \<Rightarrow> nat" where
  "totalCustomItems pl = length (filter has_call_sign_prop (line_items pl))"

text \<open>The light or dark choice on the lower-cased variant title, and the key.\<close>

definition templateKey_of :: "string \<Rightarrow> string \<Rightarrow> string" where
  "templateKey_of baseFilename variantTitle =
     (if includes_str variantTitle ''white'' \<or> includes_str variantTitle ''golden yellow''
      then baseFilename @ ''_FOR_LIGHT.zip''
      else baseFilename @ ''_FOR_DARK.zip'')"

text \<open>
  The new archive: every file of the template archive whose path does not end in
  \<open>template.png\<close> is added under its path, then \<open>design.png\<close> is set.
  \<^verbatim>\<open>newZip.file(path, data)\<close> sets the entry of that path, as assigning an object's
  property does. Folder entries that the archive library adds for parent paths are not
  modelled.
\<close>

fun copy_entries :: "zip_files \<Rightarrow> zip_files \<Rightarrow> zip_files" where
  "copy_entries [] newZip = newZip"
| "copy_entries ((relativePath, file) # rest) newZip =
     copy_entries rest
       (if \<not> endsWith relativePath ''template.png''
        then AList.update relativePath file newZip else newZip)"

definition repack :: "zip_files \<Rightarrow> bytes \<Rightarrow> zip_files" where
  "repack zipFiles finishedImageBuffer =
     AList.update ''design.png'' finishedImageBuffer (copy_entries zipFiles [])"

text \<open>
  Steps 1 to 3 of an item: fetch the template archive, open it, find the first file
  whose name matches \<^verbatim>\<open>/template\.png$/\<close>, overlay the call sign, build the new archive.
\<close>

definition make_design_zip ::
  "env \<Rightarrow> string \<Rightarrow> string \<Rightarrow> world \<Rightarrow> (error + bytes) \<times> world" where
  "make_design_zip e templateKey callSign w =
     (let w1 = w\<lparr>s3_gets := s3_gets w @ [(AWS_TEMPLATES_BUCKET e, templateKey)]\<rparr> in
      case s3_get e (AWS_TEMPLATES_BUCKET e) templateKey of
        None \<Rightarrow> (Inl (GetObjectFailed templateKey), w1)
      | Some templateZipBuffer \<Rightarrow>
          (case loadAsync e templateZipBuffer of
             None \<Rightarrow> (Inl (ZipLoadFailed templateKey), w1)
           | Some zipFiles \<Rightarrow>
               (case find (\<lambda>(relativePath, file). endsWith relativePath ''template.png'') zipFiles of
                  None \<Rightarrow> (Inl (TemplatePngNotFound templateKey), w1)
                | Some (relativePath, templatePngBytes) \<Rightarrow>
                    (case sharp_composite e templatePngBytes callSign of
                       None \<Rightarrow> (Inl SharpFailed, w1)
                     | Some finishedImageBuffer \<Rightarrow>
                         (Inr (generateAsync e (repack zipFiles finishedImageBuffer)), w1)))))"

text \<open>
  Step 4: the key of the new object, from the order name, the item id and the clock, and
  the write to the designs bucket. The result is the key.
\<close>

definition design_key :: "string \<Rightarrow> js_number \<Rightarrow> nat \<Rightarrow> string" where
  "design_key name ident now =
     ''designs/'' @ replace_first ''#'' [] name @ ''-'' @ number_toString ident
       @ ''-'' @ decimal now @ ''.zip''"

definition upload_design ::
  "env \<Rightarrow> payload \<Rightarrow> line_item \<Rightarrow> bytes \<Rightarrow> world \<Rightarrow> (error + string) \<times> world" where
  "upload_design e pl item finalZipBuffer w =
     (let newZipKey = design_key (order_name pl) (item_id item) (date_now e (clock_reads w));
          w1 = w\<lparr>clock_reads := Suc (clock_reads w)\<rparr>;
          putObjectParams = \<lparr>put_bucket = AWS_DESIGNS_BUCKET e, put_key = newZipKey,
            put_body = finalZipBuffer, put_content_type = ''application/zip''\<rparr>
      in if s3_put_ok e putObjectParams
         then (Inr newZipKey, w1\<lparr>s3_puts := s3_puts w1 @ [putObjectParams]\<rparr>)
         else (Inl (PutObjectFailed newZipKey), w1))"

text \<open>
  The loop over the line items. Its variables are the counter, the links and (replay path
  only) the tags. The body runs for the items that pass the guard; an exception in the
  body leaves the loop, since the one \<^verbatim>\<open>try\<close> block encloses the whole loop.
\<close>

record loop_vars =
  itemIndex :: nat
  designLinks :: "string list"
  dynamicTags :: "string list"

type_synonym item_body =
  "line_item \<Rightarrow> string \<Rightarrow> loop_vars \<Rightarrow> world \<Rightarrow> error option \<times> loop_vars \<times> world"

fun for_each_item ::
  "item_body \<Rightarrow> line_item list \<Rightarrow> loop_vars \<Rightarrow> world \<Rightarrow> error option \<times> loop_vars \<times> world" where
  "for_each_item body [] v w = (None, v, w)"
| "for_each_item body (item # rest) v w =
     (case call_sign_value item of
        None \<Rightarrow> for_each_item body rest v w
      | Some callSign \<Rightarrow>
          (case body item callSign v w of
             (Some err, v', w') \<Rightarrow> (Some err, v', w')
           | (None, v', w') \<Rightarrow> for_each_item body rest v' w'))"

definition newline :: string where
  "newline = [CHR 0x0A]"

definition note_prefix :: "payload \<Rightarrow> string" where
  "note_prefix pl =
     (case order_note pl of
        None \<Rightarrow> []
      | Some n \<Rightarrow> if n = [] then [] else n @ newline @ newline)"

definition log_error :: "error \<Rightarrow> world \<Rightarrow> world" where
  "log_error err w = w\<lparr>console_errors := console_errors w @ [err]\<rparr>"

section \<open>The live path: \<open>webhookHandler\<close>\<close>

definition baseFilename_webhook :: "string \<Rightarrow> string" where
  "baseFilename_webhook title =
     replace_first ''-'' ''--'' (replace_spaces (toUpperCase title))"

definition templateKey_webhook :: "string \<Rightarrow> string \<Rightarrow> string" where
  "templateKey_webhook title vt =
     templateKey_of (baseFilename_webhook title) (toLowerCase vt)"

definition webhook_url :: "env \<Rightarrow> string \<Rightarrow> string" where
  "webhook_url e newImageKey =
     ''https://'' @ AWS_DESIGNS_BUCKET e @ ''.s3.'' @ AWS_REGION e @ ''.amazonaws.com/''
       @ newImageKey"

definition webhook_link :: "string \<Rightarrow> nat \<Rightarrow> nat \<Rightarrow> string \<Rightarrow> string" where
  "webhook_link orderName idx totalItems newImageUrl =
     orderName @ ''-'' @ decimal idx @ ''/'' @ decimal totalItems @ ''-'' @ newImageUrl @ '';''"

text \<open>The body of the loop for one item that passed the guard.\<close>

definition webhook_item :: "env \<Rightarrow> payload \<Rightarrow> item_body" where
  "webhook_item e pl item callSign v w =
     (let v1 = v\<lparr>itemIndex := Suc (itemIndex v)\<rparr> in
      case variant_title item of
           None \<Rightarrow> (Some TypeError, v1, w)
         | Some vt \<Rightarrow>
             (let templateKey = templateKey_webhook (item_title item) vt in
              case make_design_zip e templateKey callSign w of
                (Inl err, w1) \<Rightarrow> (Some err, v1, w1)
              | (Inr finalZipBuffer, w1) \<Rightarrow>
                  (case upload_design e pl item finalZipBuffer w1 of
                     (Inl err, w2) \<Rightarrow> (Some err, v1, w2)
                   | (Inr newImageKey, w2) \<Rightarrow>
                       (None,
                        v1\<lparr>designLinks := designLinks v1 @
                          [webhook_link (order_name pl) (itemIndex v1) (totalCustomItems pl)
                             (webhook_url e newImageKey)]\<rparr>,
                        w2))))"

definition webhook_note :: "payload \<Rightarrow> string list \<Rightarrow> string" where
  "webhook_note pl links =
     note_prefix pl @ ''--- Custom Design Files ---'' @ newline @ join_str links newline"

text \<open>
  Reading the answer of the mutation: the live path reads
  \<^verbatim>\<open>response.data.tagsAdd.userErrors.length\<close> without a guard, so a missing part is a
  \<open>TypeError\<close>, caught like every other exception.
\<close>

definition webhook_check :: "mutation_response option \<Rightarrow> world \<Rightarrow> world" where
  "webhook_check r w =
     (case r of
        None \<Rightarrow> log_error GraphqlRequestFailed w
      | Some resp \<Rightarrow>
          (case (tagsAdd_userErrors resp, orderUpdate_userErrors resp) of
             (Some te, Some ue) \<Rightarrow>
               if length te > 0 \<or> length ue > 0 then log_error (UserErrors te ue) w else w
           | _ \<Rightarrow> log_error TypeError w))"

definition webhook_loop ::
  "env \<Rightarrow> payload \<Rightarrow> world \<Rightarrow> error option \<times> loop_vars \<times> world" where
  "webhook_loop e pl w =
     for_each_item (webhook_item e pl) (line_items pl)
       \<lparr>itemIndex = 0, designLinks = [], dynamicTags = []\<rparr> w"

definition webhookHandler :: "env \<Rightarrow> payload \<Rightarrow> world \<Rightarrow> world" where
  "webhookHandler e pl w =
     (case webhook_loop e pl w of
        (Some err, v, w1) \<Rightarrow> log_error err w1
      | (None, v, w1) \<Rightarrow>
          if length (designLinks v) > 0 then
            (let m = \<lparr>mutation_id = admin_graphql_api_id pl,
                      mutation_tags = [''has_custom_design''],
                      mutation_note = webhook_note pl (designLinks v)\<rparr>
             in webhook_check (gql_mutation e m) (w1\<lparr>mutations := mutations w1 @ [m]\<rparr>))
          else w1)"

section \<open>The replay path: \<open>processOrderPayload\<close> and \<open>main\<close>\<close>

definition baseFilename_recovery :: "string \<Rightarrow> string" where
  "baseFilename_recovery title =
     replace_first ''T-SHIRT'' ''T--SHIRT'' (replace_spaces (toUpperCase title))"

definition templateKey_recovery :: "string \<Rightarrow> string \<Rightarrow> string" where
  "templateKey_recovery title vt =
     templateKey_of (baseFilename_recovery title) (toLowerCase vt)"

definition recovery_url :: "env \<Rightarrow> string \<Rightarrow> string" where
  "recovery_url e newZipKey =
     ''https://s3.'' @ AWS_REGION e @ ''.amazonaws.com/'' @ AWS_DESIGNS_BUCKET e @ ''/''
       @ newZipKey"

definition recovery_link :: "string \<Rightarrow> nat \<Rightarrow> nat \<Rightarrow> string \<Rightarrow> string" where
  "recovery_link orderName idx totalItems newFileUrl =
     (if totalItems > 1
      then orderName @ ''-'' @ decimal idx @ ''/'' @ decimal totalItems @ ''-'' @ newFileUrl @ '';''
      else orderName @ ''-'' @ newFileUrl @ '';'')"

text \<open>
  \<^verbatim>\<open>variantParts[i] ? variantParts[i].trim() : dflt\<close>: a missing or empty part gives
  the default.
\<close>

definition variant_part :: "string list \<Rightarrow> nat \<Rightarrow> string \<Rightarrow> string" where
  "variant_part variantParts i dflt =
     (if i < length variantParts \<and> variantParts ! i \<noteq> [] then trim (variantParts ! i)
      else dflt)"

definition new_tag :: "string \<Rightarrow> string \<Rightarrow> string" where
  "new_tag vt callSign =
     (let variantParts = split_str vt '' / '';
          variantColor = variant_part variantParts 0 ''UnknownColor'';
          variantSize = variant_part variantParts 1 ''UnknownSize''
      in variantColor @ ''/'' @ variantSize @ ''/'' @ callSign)"

definition recovery_item :: "env \<Rightarrow> payload \<Rightarrow> item_body" where
  "recovery_item e pl item callSign v w =
     (let v1 = v\<lparr>itemIndex := Suc (itemIndex v)\<rparr> in
      case variant_title item of
        None \<Rightarrow> (Some TypeError, v1, w)
      | Some vt \<Rightarrow>
          (let v2 = v1\<lparr>dynamicTags := dynamicTags v1 @ [new_tag vt callSign]\<rparr>;
               templateKey = templateKey_recovery (item_title item) vt
           in case make_design_zip e templateKey callSign w of
                (Inl err, w1) \<Rightarrow> (Some err, v2, w1)
              | (Inr finalZipBuffer, w1) \<Rightarrow>
                  (case upload_design e pl item finalZipBuffer w1 of
                     (Inl err, w2) \<Rightarrow> (Some err, v2, w2)
                   | (Inr newZipKey, w2) \<Rightarrow>
                       (None,
                        v2\<lparr>designLinks := designLinks v2 @
                          [recovery_link (order_name pl) (itemIndex v2) (totalCustomItems pl)
                             (recovery_url e newZipKey)]\<rparr>,
                        w2))))"

definition recovery_note :: "payload \<Rightarrow> string list \<Rightarrow> string" where
  "recovery_note pl links =
     note_prefix pl @ ''--- Custom Design Files (Manual Recovery) ---'' @ newline
       @ join_str links newline"

text \<open>
  The replay path reads the answer with \<^verbatim>\<open>response.data?.tagsAdd?.userErrors || []\<close>:
  a missing part counts as no error.
\<close>

definition recovery_check :: "mutation_response option \<Rightarrow> world \<Rightarrow> world" where
  "recovery_check r w =
     (case r of
        None \<Rightarrow> log_error GraphqlRequestFailed w
      | Some resp \<Rightarrow>
          (let tagsErrors = (case tagsAdd_userErrors resp of None \<Rightarrow> [] | Some te \<Rightarrow> te);
               orderUpdateErrors =
                 (case orderUpdate_userErrors resp of None \<Rightarrow> [] | Some ue \<Rightarrow> ue)
           in if length tagsErrors > 0 \<or> length orderUpdateErrors > 0
              then log_error (UserErrors tagsErrors orderUpdateErrors) w else w))"

definition recovery_loop ::
  "env \<Rightarrow> payload \<Rightarrow> world \<Rightarrow> error option \<times> loop_vars \<times> world" where
  "recovery_loop e pl w =
     for_each_item (recovery_item e pl) (line_items pl)
       \<lparr>itemIndex = 0, designLinks = [],
        dynamicTags = [''has_custom_design'', ''manual_recovery'']\<rparr> w"

definition processOrderPayload :: "env \<Rightarrow> payload \<Rightarrow> world \<Rightarrow> world" where
  "processOrderPayload e pl w =
     (case recovery_loop e pl w of
        (Some err, v, w1) \<Rightarrow> log_error err w1
      | (None, v, w1) \<Rightarrow>
          if length (designLinks v) > 0 then
            (let m = \<lparr>mutation_id = admin_graphql_api_id pl,
                      mutation_tags = dynamicTags v,
                      mutation_note = recovery_note pl (designLinks v)\<rparr>
             in recovery_check (gql_mutation e m) (w1\<lparr>mutations := mutations w1 @ [m]\<rparr>))
          else w1)"

text \<open>
  \<^verbatim>\<open>Number(edge.node.id.split('/').pop())\<close>. The last segment of an order platform
  identifier is a decimal digit string; on such a string, and on the empty string,
  \<open>Number_str\<close> is JavaScript's \<^verbatim>\<open>Number\<close>. Everything else is mapped to NaN.
\<close>

definition is_digit :: "char \<Rightarrow> bool" where
  "is_digit c = (let n = (of_char c :: nat) in 48 \<le> n \<and> n \<le> 57)"

definition Number_str :: "string \<Rightarrow> js_number" where
  "Number_str s =
     (if list_all is_digit s
      then Num (foldl (\<lambda>acc c. 10 * acc + (of_char c - 48)) 0 s)
      else NaN)"

definition formattedPayload :: "order_node \<Rightarrow> payload" where
  "formattedPayload orderNode =
     \<lparr>order_name = order_node_name orderNode,
      order_note = order_node_note orderNode,
      admin_graphql_api_id = order_gid orderNode,
      line_items =
        map (\<lambda>node.
              \<lparr>item_id = Number_str (last (split_str (node_gid node) ''/'')),
               item_title = node_title node,
               variant_title = node_variantTitle node,
               properties =
                 Some (map (\<lambda>(k, v). \<lparr>prop_name = k, prop_value = v\<rparr>)
                        (customAttributes node))\<rparr>)
          (lineItems orderNode)\<rparr>"

text \<open>
  The loop of \<open>main\<close> over the order names read from the file. The processing function
  is a parameter, so that the loop is the one of both revisions of the script.
\<close>

fun main_loop ::
  "(env \<Rightarrow> payload \<Rightarrow> world \<Rightarrow> world) \<Rightarrow> env \<Rightarrow> string list \<Rightarrow> world \<Rightarrow> world" where
  "main_loop process e [] w = w"
| "main_loop process e (orderName # rest) w =
     (if orderName = [] then main_loop process e rest w
      else
        (let w1 = w\<lparr>queries := queries w @ [''name:'' @ orderName]\<rparr> in
         case gql_query e w orderName of
           QueryThrows \<Rightarrow> main_loop process e rest (log_error GraphqlRequestFailed w1)
         | NoOrder \<Rightarrow> main_loop process e rest w1
         | Order orderNode \<Rightarrow>
             if ''has_custom_design'' \<in> set (order_tags orderNode)
             then main_loop process e rest w1
             else main_loop process e rest (process e (formattedPayload orderNode) w1)))"

definition ordersToProcess :: "string \<Rightarrow> string list" where
  "ordersToProcess fileContent = map trim (tl (split_str (trim fileContent) newline))"

definition main :: "env \<Rightarrow> string \<Rightarrow> world \<Rightarrow> world" where
  "main e fileContent w = main_loop processOrderPayload e (ordersToProcess fileContent) w"

section \<open>The wording of the specification, for comparison\<close>

text \<open>
  Doubling every hyphen of a string, as the specification words the escape of
  hyphenated title tokens.
\<close>

definition spec_double_hyphens :: "string \<Rightarrow> string" where
  "spec_double_hyphens s = concat (map (\<lambda>c. if c = CHR ''-'' then ''--'' else [c]) s)"

text \<open>
  The template key as the specification words it: the upper-cased title with its
  whitespace runs replaced by underscores, then the light suffix when the lower-cased
  variant descriptor contains \<open>white\<close> or \<open>golden yellow\<close> as a substring, the dark one
  otherwise. Being a substring is \<^const>\<open>sublist\<close>.
\<close>

definition spec_suffix :: "string \<Rightarrow> string" where
  "spec_suffix variantDescriptor =
     (if sublist ''white'' (toLowerCase variantDescriptor)
         \<or> sublist ''golden yellow'' (toLowerCase variantDescriptor)
      then ''_FOR_LIGHT.zip'' else ''_FOR_DARK.zip'')"

definition spec_templateKey :: "string \<Rightarrow> string \<Rightarrow> string" where
  "spec_templateKey title variantDescriptor =
     replace_spaces (toUpperCase title) @ spec_suffix variantDescriptor"

section \<open>A concrete store, clock and order platform\<close>

text \<open>
  One template archive is in the store, under the key of the product Classic Cap on a
  light variant. It holds the templatable image and a text file. Every write and every
  mutation succeeds. The order platform knows one order, which carries the marker tag.
\<close>

definition tagged_order :: order_node where
  "tagged_order =
     \<lparr>order_gid = ''gid://shopify/Order/1'', order_node_name = ''#1001'',
      order_node_note = None, order_tags = [''vip'', ''has_custom_design''],
      lineItems =
        [\<lparr>node_gid = ''gid://shopify/LineItem/42'', node_title = ''Classic Cap'',
          node_variantTitle = Some ''White / L'',
          customAttributes = [(''call_sign'', Some ''N1ABC'')]\<rparr>]\<rparr>"

definition example_env :: env where
  "example_env =
     \<lparr>AWS_TEMPLATES_BUCKET = ''tpl'', AWS_DESIGNS_BUCKET = ''dsg'', AWS_REGION = ''eu'',
      s3_get = (\<lambda>bucket key. if key = ''CLASSIC_CAP_FOR_LIGHT.zip'' then Some [1] else None),
      loadAsync = (\<lambda>b. Some [(''template.png'', [7]), (''readme.txt'', [8])]),
      sharp_composite = (\<lambda>png callSign. Some (png @ [9])),
      generateAsync = (\<lambda>files. concat (map snd files)),
      s3_put_ok = (\<lambda>p. True),
      date_now = (\<lambda>k. 1000 + k),
      gql_mutation =
        (\<lambda>m. Some \<lparr>tagsAdd_userErrors = Some [], orderUpdate_userErrors = Some []\<rparr>),
      gql_query =
        (\<lambda>w orderName. if orderName = ''#1001'' then Order tagged_order else NoOrder)\<rparr>"

definition empty_world :: world where
  "empty_world =
     \<lparr>clock_reads = 0, s3_gets = [], s3_puts = [], mutations = [], queries = [],
      console_errors = []\<rparr>"

definition custom_item :: "string \<Rightarrow> string \<Rightarrow> line_item" where
  "custom_item title callSign =
     \<lparr>item_id = Num 42, item_title = title, variant_title = Some ''White / L'',
      properties = Some [\<lparr>prop_name = ''call_sign'', prop_value = Some callSign\<rparr>]\<rparr>"

definition plain_item :: line_item where
  "plain_item =
     \<lparr>item_id = Num 43, item_title = ''Sticker'', variant_title = None, properties = Some []\<rparr>"

definition example_order :: "string \<Rightarrow> line_item list \<Rightarrow> payload" where
  "example_order name items =
     \<lparr>order_name = name, order_note = None,
      admin_graphql_api_id = ''gid://shopify/Order/1'', line_items = items\<rparr>"

section \<open>Facts about the string primitives\<close>

lemma includes_str_iff: "includes_str s sub \<longleftrightarrow> sublist sub s"
  by (induction s) (auto simp: sublist_Cons_right)


lemma replace_first_absent:
  "pat \<noteq> [] \<Longrightarrow> \<not> sublist pat s \<Longrightarrow> replace_first pat rep s = s"
  by (induction s) (auto simp: sublist_Cons_right)

lemma replace_first_at:
  "\<forall>pre' post'. pre @ pat @ post = pre' @ pat @ post' \<longrightarrow> length pre \<le> length pre' \<Longrightarrow>
   replace_first pat rep (pre @ pat @ post) = pre @ rep @ post"
proof (induction pre)
  case Nil
  show ?case
  proof (cases "pat @ post")
    case Nil
    then show ?thesis by simp
  next
    case (Cons c cs)
    then have "prefix pat (c # cs)" by (metis prefixI)
    with Cons show ?thesis by (simp del: append_eq_Cons_conv) (metis append_eq_conv_conj)
  qed
next
  case (Cons a pre)
  have np: "\<not> prefix pat (a # pre @ pat @ post)"
  proof
    assume "prefix pat (a # pre @ pat @ post)"
    then obtain post' where "a # pre @ pat @ post = pat @ post'" by (auto simp: prefix_def)
    then have "(a # pre) @ pat @ post = [] @ pat @ post'" by simp
    with Cons.prems have "length (a # pre) \<le> length ([]::string)" by blast
    then show False by simp
  qed
  have "\<forall>pre' post'. pre @ pat @ post = pre' @ pat @ post' \<longrightarrow> length pre \<le> length pre'"
  proof (intro allI impI)
    fix pre' post'
    assume "pre @ pat @ post = pre' @ pat @ post'"
    then have "(a # pre) @ pat @ post = (a # pre') @ pat @ post'" by simp
    with Cons.prems have "length (a # pre) \<le> length (a # pre')" by blast
    then show "length pre \<le> length pre'" by simp
  qed
  with Cons.IH np show ?case by simp
qed

lemma replace_first_char:
  "c \<notin> set pre \<Longrightarrow> replace_first [c] rep (pre @ c # post) = pre @ rep @ post"
  by (induction pre) auto

lemma of_char_toUpperCase:
  "(of_char (char_toUpperCase c) :: nat) =
     (if 97 \<le> (of_char c :: nat) \<and> (of_char c :: nat) \<le> 122 then of_char c - 32 else of_char c)"
  by (auto simp: char_toUpperCase_def Let_def)

lemma char_toUpperCase_hyphen: "char_toUpperCase c = CHR ''-'' \<longleftrightarrow> c = CHR ''-''"
proof
  assume h: "char_toUpperCase c = CHR ''-''"
  then have "(of_char (char_toUpperCase c) :: nat) = 45" by simp
  then have "(of_char c :: nat) = 45"
    by (simp add: of_char_toUpperCase split: if_splits)
  then have "(of_char c :: nat) = of_char CHR ''-''" by simp
  then show "c = CHR ''-''" by (simp only: of_char_eq_iff)
next
  assume "c = CHR ''-''"
  then show "char_toUpperCase c = CHR ''-''" by (simp add: char_toUpperCase_def)
qed

lemma set_replace_spaces: "set (replace_spaces s) \<subseteq> insert CHR ''_'' (set s)"
proof (induction s rule: replace_spaces.induct)
  case 1
  then show ?case by simp
next
  case (2 c cs)
  then show ?case by (auto dest: set_dropWhileD)
qed

lemma no_hyphen_normalised:
  "CHR ''-'' \<notin> set title \<Longrightarrow> CHR ''-'' \<notin> set (replace_spaces (toUpperCase title))"
proof -
  assume h: "CHR ''-'' \<notin> set title"
  have "CHR ''-'' \<notin> set (toUpperCase title)"
  proof
    assume "CHR ''-'' \<in> set (toUpperCase title)"
    then obtain x where "x \<in> set title" "char_toUpperCase x = CHR ''-''"
      by (auto simp: toUpperCase_def)
    with h show False by (simp add: char_toUpperCase_hyphen)
  qed
  with set_replace_spaces [of "toUpperCase title"] show ?thesis by auto
qed

section \<open>The template key (C4, C8)\<close>

text \<open>
  The title \<open>A-B-C\<close> has two hyphens. The live path doubles the first one only and the
  replay path none, where doubling every hyphen gives \<open>A--B--C\<close>.
\<close>

theorem hyphen_escape_counterexample:
  "baseFilename_webhook ''A-B-C'' = ''A--B-C''
   \<and> baseFilename_recovery ''A-B-C'' = ''A-B-C''
   \<and> spec_double_hyphens (replace_spaces (toUpperCase ''A-B-C'')) = ''A--B--C''"
  by code_simp

text \<open>
  C4, as the code has it. The string-pattern \<^verbatim>\<open>replace\<close> rewrites one occurrence.
  On the live path the first hyphen of the normalised title is doubled and every later
  one is left single; a title with no hyphen is unchanged. On the replay path the first
  occurrence of \<open>T-SHIRT\<close> becomes \<open>T--SHIRT\<close> and nothing else changes; a title
  without \<open>T-SHIRT\<close> is unchanged.
\<close>

theorem hyphen_escape_first_only:
  "(\<forall>pre post. replace_spaces (toUpperCase title) = pre @ CHR ''-'' # post \<and> CHR ''-'' \<notin> set pre
      \<longrightarrow> baseFilename_webhook title = pre @ ''--'' @ post)
   \<and> (CHR ''-'' \<notin> set (replace_spaces (toUpperCase title))
      \<longrightarrow> baseFilename_webhook title = replace_spaces (toUpperCase title))
   \<and> (\<forall>pre post. replace_spaces (toUpperCase title) = pre @ ''T-SHIRT'' @ post
        \<and> (\<forall>pre' post'. pre @ ''T-SHIRT'' @ post = pre' @ ''T-SHIRT'' @ post'
              \<longrightarrow> length pre \<le> length pre')
      \<longrightarrow> baseFilename_recovery title = pre @ ''T--SHIRT'' @ post)
   \<and> (\<not> sublist ''T-SHIRT'' (replace_spaces (toUpperCase title))
      \<longrightarrow> baseFilename_recovery title = replace_spaces (toUpperCase title))"
proof (intro conjI allI impI)
  fix pre post
  assume "replace_spaces (toUpperCase title) = pre @ CHR ''-'' # post \<and> CHR ''-'' \<notin> set pre"
  then show "baseFilename_webhook title = pre @ ''--'' @ post"
    by (simp add: baseFilename_webhook_def replace_first_char)
next
  assume "CHR ''-'' \<notin> set (replace_spaces (toUpperCase title))"
  then have "\<not> sublist ''-'' (replace_spaces (toUpperCase title))"
    by (auto simp: sublist_def)
  then show "baseFilename_webhook title = replace_spaces (toUpperCase title)"
    by (simp add: baseFilename_webhook_def replace_first_absent)
next
  fix pre post
  assume h: "replace_spaces (toUpperCase title) = pre @ ''T-SHIRT'' @ post
        \<and> (\<forall>pre' post'. pre @ ''T-SHIRT'' @ post = pre' @ ''T-SHIRT'' @ post'
              \<longrightarrow> length pre \<le> length pre')"
  then have "replace_first ''T-SHIRT'' ''T--SHIRT'' (pre @ ''T-SHIRT'' @ post)
      = pre @ ''T--SHIRT'' @ post"
    by (intro replace_first_at) blast
  with h show "baseFilename_recovery title = pre @ ''T--SHIRT'' @ post"
    by (simp add: baseFilename_recovery_def)
next
  assume "\<not> sublist ''T-SHIRT'' (replace_spaces (toUpperCase title))"
  then show "baseFilename_recovery title = replace_spaces (toUpperCase title)"
    by (simp add: baseFilename_recovery_def replace_first_absent)
qed

text \<open>The four cases of the escape on concrete titles.\<close>

theorem hyphen_escape_first_only_witness:
  "baseFilename_webhook ''A-B-C'' = ''A'' @ ''--'' @ ''B-C''
   \<and> baseFilename_webhook ''Classic Cap'' = ''CLASSIC_CAP''
   \<and> baseFilename_recovery ''t-shirt t-shirt'' = [] @ ''T--SHIRT'' @ ''_T-SHIRT''
   \<and> baseFilename_recovery ''A-B-C'' = ''A-B-C''"
proof -
  have a: "replace_spaces (toUpperCase ''A-B-C'') = ''A'' @ CHR ''-'' # ''B-C''
      \<and> CHR ''-'' \<notin> set ''A''"
    by code_simp
  have b: "replace_spaces (toUpperCase ''Classic Cap'') = ''CLASSIC_CAP''"
    by code_simp
  have b': "CHR ''-'' \<notin> set ''CLASSIC_CAP''"
    by simp
  have c: "replace_spaces (toUpperCase ''t-shirt t-shirt'') = [] @ ''T-SHIRT'' @ ''_T-SHIRT''"
    by code_simp
  have c': "\<forall>pre' post'. [] @ ''T-SHIRT'' @ ''_T-SHIRT'' = pre' @ ''T-SHIRT'' @ post'
      \<longrightarrow> length ([]::string) \<le> length pre'"
    by simp
  have d: "replace_spaces (toUpperCase ''A-B-C'') = ''A-B-C''"
    by code_simp
  have d': "\<not> sublist ''T-SHIRT'' ''A-B-C''"
    by code_simp
  have 1: "baseFilename_webhook ''A-B-C'' = ''A'' @ ''--'' @ ''B-C''"
    using hyphen_escape_first_only [of "''A-B-C''"] a by blast
  have 2: "baseFilename_webhook ''Classic Cap'' = ''CLASSIC_CAP''"
    using hyphen_escape_first_only [of "''Classic Cap''"] b b' by simp
  have 3: "baseFilename_recovery ''t-shirt t-shirt'' = [] @ ''T--SHIRT'' @ ''_T-SHIRT''"
    using hyphen_escape_first_only [of "''t-shirt t-shirt''"] c c' by blast
  have 4: "baseFilename_recovery ''A-B-C'' = ''A-B-C''"
    using hyphen_escape_first_only [of "''A-B-C''"] d d' by simp
  from 1 2 3 4 show ?thesis by blast
qed

text \<open>
  For the title \<open>T-Shirt\<close> both paths put the doubled hyphen into the key, which the
  upper-cased, underscore-joined title alone does not have.
\<close>

theorem templateKey_counterexample:
  "templateKey_webhook ''T-Shirt'' ''Black'' = ''T--SHIRT_FOR_DARK.zip''
   \<and> templateKey_recovery ''T-Shirt'' ''Black'' = ''T--SHIRT_FOR_DARK.zip''
   \<and> spec_templateKey ''T-Shirt'' ''Black'' = ''T-SHIRT_FOR_DARK.zip''"
  by code_simp

lemma templateKey_of_suffix:
  "templateKey_of base (toLowerCase vt) = base @ spec_suffix vt"
  by (simp add: templateKey_of_def spec_suffix_def includes_str_iff)

text \<open>
  C8, as the code has it. The key is the base file name (the upper-cased title with
  whitespace runs replaced by underscores and the hyphen escape of its path applied)
  followed by \<open>_FOR_LIGHT.zip\<close> when the lower-cased variant title contains \<open>white\<close> or
  \<open>golden yellow\<close> and by \<open>_FOR_DARK.zip\<close> otherwise. Where the escape does not apply
  (no hyphen in the title on the live path, no \<open>T-SHIRT\<close> on the replay path) the key is
  exactly the one the specification words. The key is a function of the two strings, so
  it is defined for every pair and the same pair always gives the same key.
\<close>

theorem templateKey_resolution:
  "templateKey_webhook title vt = baseFilename_webhook title @ spec_suffix vt
   \<and> templateKey_recovery title vt = baseFilename_recovery title @ spec_suffix vt
   \<and> (CHR ''-'' \<notin> set title \<longrightarrow> templateKey_webhook title vt = spec_templateKey title vt)
   \<and> (\<not> sublist ''T-SHIRT'' (replace_spaces (toUpperCase title))
        \<longrightarrow> templateKey_recovery title vt = spec_templateKey title vt)
   \<and> templateKey_webhook ''Classic Cap'' ''White / L'' = ''CLASSIC_CAP_FOR_LIGHT.zip''
   \<and> templateKey_recovery ''Classic Cap'' ''White / L'' = ''CLASSIC_CAP_FOR_LIGHT.zip''"
proof (intro conjI impI)
  show "templateKey_webhook title vt = baseFilename_webhook title @ spec_suffix vt"
    by (simp add: templateKey_webhook_def templateKey_of_suffix)
  show "templateKey_recovery title vt = baseFilename_recovery title @ spec_suffix vt"
    by (simp add: templateKey_recovery_def templateKey_of_suffix)
  show "templateKey_webhook ''Classic Cap'' ''White / L'' = ''CLASSIC_CAP_FOR_LIGHT.zip''"
    by code_simp
  show "templateKey_recovery ''Classic Cap'' ''White / L'' = ''CLASSIC_CAP_FOR_LIGHT.zip''"
    by code_simp
next
  assume "CHR ''-'' \<notin> set title"
  then have "\<not> sublist ''-'' (replace_spaces (toUpperCase title))"
    using no_hyphen_normalised [of title] by (auto simp: sublist_def)
  then show "templateKey_webhook title vt = spec_templateKey title vt"
    by (simp add: templateKey_webhook_def templateKey_of_suffix spec_templateKey_def
        baseFilename_webhook_def replace_first_absent)
next
  assume "\<not> sublist ''T-SHIRT'' (replace_spaces (toUpperCase title))"
  then show "templateKey_recovery title vt = spec_templateKey title vt"
    by (simp add: templateKey_recovery_def templateKey_of_suffix spec_templateKey_def
        baseFilename_recovery_def replace_first_absent)
qed

text \<open>The scenario of the specification: Classic Cap on White / L.\<close>

theorem templateKey_resolution_witness:
  "CHR ''-'' \<notin> set ''Classic Cap''
   \<and> templateKey_webhook ''Classic Cap'' ''White / L'' = spec_templateKey ''Classic Cap'' ''White / L''
   \<and> templateKey_recovery ''Classic Cap'' ''White / L'' = spec_templateKey ''Classic Cap'' ''White / L''
   \<and> spec_templateKey ''Classic Cap'' ''White / L'' = ''CLASSIC_CAP_FOR_LIGHT.zip''"
proof -
  have a: "CHR ''-'' \<notin> set ''Classic Cap''"
    by simp
  have b: "\<not> sublist ''T-SHIRT'' (replace_spaces (toUpperCase ''Classic Cap''))"
    by code_simp
  have c: "spec_templateKey ''Classic Cap'' ''White / L'' = ''CLASSIC_CAP_FOR_LIGHT.zip''"
    by code_simp
  have d: "templateKey_webhook ''Classic Cap'' ''White / L''
      = spec_templateKey ''Classic Cap'' ''White / L''"
    using a templateKey_resolution [of "''Classic Cap''" "''White / L''"] by blast
  have e: "templateKey_recovery ''Classic Cap'' ''White / L''
      = spec_templateKey ''Classic Cap'' ''White / L''"
    using b templateKey_resolution [of "''Classic Cap''" "''White / L''"] by blast
  from a c d e show ?thesis by blast
qed

section \<open>Repackaging the archive (C6)\<close>

lemma copy_entries_template:
  "endsWith p ''template.png'' \<Longrightarrow> map_of (copy_entries zs acc) p = map_of acc p"
  by (induction zs arbitrary: acc) (auto simp: update_conv')

lemma copy_entries_other:
  "p \<notin> fst ` set zs \<Longrightarrow> map_of (copy_entries zs acc) p = map_of acc p"
  by (induction zs arbitrary: acc) (auto simp: update_conv')

lemma copy_entries_kept:
  "distinct (map fst zs) \<Longrightarrow> \<not> endsWith p ''template.png'' \<Longrightarrow> map_of zs p = Some b \<Longrightarrow>
   map_of (copy_entries zs acc) p = Some b"
proof (induction zs arbitrary: acc)
  case Nil
  then show ?case by simp
next
  case (Cons z zs)
  obtain q f where z: "z = (q, f)" by (cases z)
  show ?case
  proof (cases "q = p")
    case True
    with Cons.prems z have "b = f" and "p \<notin> fst ` set zs" by auto
    with Cons.prems True z show ?thesis
      by (simp add: copy_entries_other update_conv')
  next
    case False
    with Cons z show ?thesis by simp
  qed
qed

lemma copy_entries_preserves:
  assumes "distinct (map fst zs)" and "\<not> endsWith p ''template.png''"
  shows "map_of (copy_entries zs []) p = map_of zs p"
proof (cases "map_of zs p")
  case None
  then have "p \<notin> fst ` set zs" by (simp add: map_of_eq_None_iff)
  with None show ?thesis by (simp add: copy_entries_other)
next
  case (Some b)
  with assms show ?thesis by (simp add: copy_entries_kept)
qed

lemma design_png_not_template: "\<not> endsWith ''design.png'' ''template.png''"
  by (simp add: endsWith_def)

text \<open>
  A template archive that already holds a file \<open>design.png\<close>: its path does not end in
  \<open>template.png\<close>, yet its bytes are not carried over, since the new image takes its
  name.
\<close>

theorem repack_counterexample:
  "\<not> endsWith ''design.png'' ''template.png''
   \<and> map_of [(''template.png'', [1::nat]), (''design.png'', [2])] ''design.png'' = Some [2]
   \<and> map_of (repack [(''template.png'', [1]), (''design.png'', [2])] [9]) ''design.png''
       = Some [9]"
  by code_simp

text \<open>
  C6, as the code has it. For an archive whose entries have distinct paths, every entry
  whose path neither ends in \<open>template.png\<close> nor is \<open>design.png\<close> is in the new archive
  under the same path with the same bytes; no path ending in \<open>template.png\<close> is in the
  new archive; and \<open>design.png\<close> holds the replacement image.
\<close>

theorem repack_preserves:
  assumes "distinct (map fst zipFiles)"
  shows "(\<forall>p. \<not> endsWith p ''template.png'' \<and> p \<noteq> ''design.png''
            \<longrightarrow> map_of (repack zipFiles raster) p = map_of zipFiles p)
         \<and> (\<forall>p. endsWith p ''template.png'' \<longrightarrow> map_of (repack zipFiles raster) p = None)
         \<and> map_of (repack zipFiles raster) ''design.png'' = Some raster"
proof (intro conjI allI impI)
  fix p
  assume "\<not> endsWith p ''template.png'' \<and> p \<noteq> ''design.png''"
  with assms show "map_of (repack zipFiles raster) p = map_of zipFiles p"
    by (simp add: repack_def update_conv' copy_entries_preserves)
next
  fix p
  assume h: "endsWith p ''template.png''"
  then have "p \<noteq> ''design.png''" using design_png_not_template by blast
  with h show "map_of (repack zipFiles raster) p = None"
    by (simp add: repack_def update_conv' copy_entries_template)
next
  show "map_of (repack zipFiles raster) ''design.png'' = Some raster"
    by (simp add: repack_def update_conv')
qed

text \<open>The archive of the example store, repackaged.\<close>

theorem repack_preserves_witness:
  "distinct (map fst [(''template.png'', [7::nat]), (''readme.txt'', [8])])
   \<and> map_of (repack [(''template.png'', [7]), (''readme.txt'', [8])] [9]) ''readme.txt'' = Some [8]
   \<and> map_of (repack [(''template.png'', [7]), (''readme.txt'', [8])] [9]) ''template.png'' = None
   \<and> map_of (repack [(''template.png'', [7]), (''readme.txt'', [8])] [9]) ''design.png'' = Some [9]"
proof -
  have d: "distinct (map fst [(''template.png'', [7::nat]), (''readme.txt'', [8])])"
    by simp
  have a: "\<not> endsWith ''readme.txt'' ''template.png'' \<and> ''readme.txt'' \<noteq> ''design.png''"
    by code_simp
  have b: "endsWith ''template.png'' ''template.png''"
    by code_simp
  have m: "map_of [(''template.png'', [7::nat]), (''readme.txt'', [8])] ''readme.txt'' = Some [8]"
    by simp
  note t = repack_preserves [OF d, of "[9]"]
  from t a m have 1: "map_of (repack [(''template.png'', [7]), (''readme.txt'', [8])] [9])
      ''readme.txt'' = Some [8]"
    by metis
  from t b have 2: "map_of (repack [(''template.png'', [7]), (''readme.txt'', [8])] [9])
      ''template.png'' = None"
    by blast
  from t have 3: "map_of (repack [(''template.png'', [7]), (''readme.txt'', [8])] [9])
      ''design.png'' = Some [9]"
    by blast
  from d 1 2 3 show ?thesis by blast
qed

section \<open>The loop over the line items\<close>

lemma for_each_item_skip_all:
  "\<forall>item\<in>set items. call_sign_value item = None \<Longrightarrow> for_each_item body items v w = (None, v, w)"
  by (induction items) auto

lemma for_each_item_append:
  "for_each_item body (xs @ ys) v w =
     (case for_each_item body xs v w of
        (Some err, v', w') \<Rightarrow> (Some err, v', w')
      | (None, v', w') \<Rightarrow> for_each_item body ys v' w')"
  by (induction xs arbitrary: v w) (auto split: option.splits prod.splits)

lemma for_each_item_fails_at:
  assumes "for_each_item body pre v w = (None, v1, w1)"
    and "call_sign_value item = Some cs"
    and "body item cs v1 w1 = (Some err, v2, w2)"
  shows "for_each_item body (pre @ item # post) v w = (Some err, v2, w2)"
  using assms by (simp add: for_each_item_append)

lemma for_each_item_rel:
  assumes refl: "\<And>w. R w w"
    and trans: "\<And>a b c. R a b \<Longrightarrow> R b c \<Longrightarrow> R a c"
    and step: "\<And>item cs v w. item \<in> set items \<Longrightarrow> call_sign_value item = Some cs \<Longrightarrow>
      R w (snd (snd (body item cs v w)))"
  shows "R w (snd (snd (for_each_item body items v w)))"
  using step
proof (induction items arbitrary: v w)
  case Nil
  show ?case by (simp add: refl)
next
  case (Cons item rest)
  have rest: "\<And>v w. R w (snd (snd (for_each_item body rest v w)))"
    by (rule Cons.IH) (simp add: Cons.prems)
  show ?case
  proof (cases "call_sign_value item")
    case None
    then show ?thesis by (simp add: rest)
  next
    case (Some cs)
    obtain r v' w' where b: "body item cs v w = (r, v', w')" by (cases "body item cs v w")
    have "R w (snd (snd (body item cs v w)))" by (rule Cons.prems) (simp_all add: Some)
    with b have s: "R w w'" by simp
    show ?thesis
    proof (cases r)
      case None
      with Some b s rest [of w' v'] show ?thesis by (auto intro: trans)
    next
      case (Some err)
      with \<open>call_sign_value item = Some cs\<close> b s show ?thesis by simp
    qed
  qed
qed

lemma make_design_zip_world:
  "make_design_zip e k cs w = (r, w') \<Longrightarrow>
   w' = w\<lparr>s3_gets := s3_gets w @ [(AWS_TEMPLATES_BUCKET e, k)]\<rparr>"
  by (auto simp: make_design_zip_def Let_def split: option.splits prod.splits)

lemma upload_design_world:
  "upload_design e pl item body w = (r, w') \<Longrightarrow>
   mutations w' = mutations w \<and> s3_gets w' = s3_gets w \<and> console_errors w' = console_errors w
   \<and> queries w' = queries w
   \<and> (s3_puts w' = s3_puts w
       \<or> s3_puts w' = s3_puts w @
            [\<lparr>put_bucket = AWS_DESIGNS_BUCKET e,
              put_key = design_key (order_name pl) (item_id item) (date_now e (clock_reads w)),
              put_body = body, put_content_type = ''application/zip''\<rparr>])"
  by (auto simp: upload_design_def Let_def split: if_splits)

lemma webhook_item_mutations:
  "mutations (snd (snd (webhook_item e pl item cs v w))) = mutations w"
  by (auto simp: webhook_item_def Let_def split: option.splits prod.splits sum.splits
      dest!: make_design_zip_world upload_design_world)

lemma recovery_item_mutations:
  "mutations (snd (snd (recovery_item e pl item cs v w))) = mutations w"
  by (auto simp: recovery_item_def Let_def split: option.splits prod.splits sum.splits
      dest!: make_design_zip_world upload_design_world)

lemma webhook_loop_mutations:
  "mutations (snd (snd (webhook_loop e pl w))) = mutations w"
  unfolding webhook_loop_def
  by (rule for_each_item_rel [where R = "\<lambda>a b. mutations b = mutations a"])
    (simp_all add: webhook_item_mutations)

lemma recovery_loop_mutations:
  "mutations (snd (snd (recovery_loop e pl w))) = mutations w"
  unfolding recovery_loop_def
  by (rule for_each_item_rel [where R = "\<lambda>a b. mutations b = mutations a"])
    (simp_all add: recovery_item_mutations)

lemma log_error_mutations: "mutations (log_error err w) = mutations w"
  by (simp add: log_error_def)

section \<open>No link, no annotation (C5)\<close>

text \<open>
  C5. When the loop over the line items ends with no link, no order mutation is sent, on
  either path. In particular, when no line item carries a non-empty \<open>call_sign\<close>, the
  handler does nothing at all: no fetch, no write, no mutation, no report.
\<close>

theorem no_links_no_annotation:
  "(designLinks (fst (snd (webhook_loop e pl w))) = []
      \<longrightarrow> mutations (webhookHandler e pl w) = mutations w)
   \<and> (designLinks (fst (snd (recovery_loop e pl w))) = []
      \<longrightarrow> mutations (processOrderPayload e pl w) = mutations w)
   \<and> ((\<forall>item\<in>set (line_items pl). call_sign_value item = None)
      \<longrightarrow> webhookHandler e pl w = w \<and> processOrderPayload e pl w = w)"
proof (intro conjI impI)
  assume h: "designLinks (fst (snd (webhook_loop e pl w))) = []"
  obtain r v w1 where l: "webhook_loop e pl w = (r, v, w1)"
    by (cases "webhook_loop e pl w")
  with webhook_loop_mutations [of e pl w] have "mutations w1 = mutations w" by simp
  with h l show "mutations (webhookHandler e pl w) = mutations w"
    by (cases r) (simp_all add: webhookHandler_def log_error_mutations)
next
  assume h: "designLinks (fst (snd (recovery_loop e pl w))) = []"
  obtain r v w1 where l: "recovery_loop e pl w = (r, v, w1)"
    by (cases "recovery_loop e pl w")
  with recovery_loop_mutations [of e pl w] have "mutations w1 = mutations w" by simp
  with h l show "mutations (processOrderPayload e pl w) = mutations w"
    by (cases r) (simp_all add: processOrderPayload_def log_error_mutations)
next
  assume h: "\<forall>item\<in>set (line_items pl). call_sign_value item = None"
  then show "webhookHandler e pl w = w"
    by (simp add: webhookHandler_def webhook_loop_def for_each_item_skip_all)
next
  assume h: "\<forall>item\<in>set (line_items pl). call_sign_value item = None"
  then show "processOrderPayload e pl w = w"
    by (simp add: processOrderPayload_def recovery_loop_def for_each_item_skip_all)
qed

text \<open>
  An order whose only custom item has no template in the store, and an order without
  custom items.
\<close>

theorem no_links_no_annotation_witness:
  "designLinks (fst (snd (webhook_loop example_env
       (example_order ''#1001'' [custom_item ''Mug'' ''N1ABC'']) empty_world))) = []
   \<and> mutations (webhookHandler example_env
        (example_order ''#1001'' [custom_item ''Mug'' ''N1ABC'']) empty_world) = []
   \<and> designLinks (fst (snd (recovery_loop example_env
       (example_order ''#1001'' [custom_item ''Mug'' ''N1ABC'']) empty_world))) = []
   \<and> mutations (processOrderPayload example_env
        (example_order ''#1001'' [custom_item ''Mug'' ''N1ABC'']) empty_world) = []
   \<and> call_sign_value plain_item = None
   \<and> webhookHandler example_env (example_order ''#1001'' [plain_item]) empty_world = empty_world
   \<and> processOrderPayload example_env (example_order ''#1001'' [plain_item]) empty_world
       = empty_world"
proof -
  let ?mug = "example_order ''#1001'' [custom_item ''Mug'' ''N1ABC'']"
  let ?plain = "example_order ''#1001'' [plain_item]"
  have a: "designLinks (fst (snd (webhook_loop example_env ?mug empty_world))) = []"
    by code_simp
  have b: "designLinks (fst (snd (recovery_loop example_env ?mug empty_world))) = []"
    by code_simp
  have c: "call_sign_value plain_item = None"
    by code_simp
  then have c': "\<forall>item\<in>set (line_items ?plain). call_sign_value item = None"
    by (simp add: example_order_def)
  have m: "mutations empty_world = []"
    by (simp add: empty_world_def)
  from a no_links_no_annotation [of example_env ?mug empty_world] m
  have 1: "mutations (webhookHandler example_env ?mug empty_world) = []" by simp
  from b no_links_no_annotation [of example_env ?mug empty_world] m
  have 2: "mutations (processOrderPayload example_env ?mug empty_world) = []" by simp
  from c' no_links_no_annotation [of example_env ?plain empty_world]
  have 3: "webhookHandler example_env ?plain empty_world = empty_world
      \<and> processOrderPayload example_env ?plain empty_world = empty_world" by blast
  from a b c 1 2 3 show ?thesis by blast
qed

section \<open>The key of the stored design (C10)\<close>




lemma item_steps_puts:
  assumes m: "make_design_zip e k cs w = (r1, w1)"
    and u: "upload_design e pl item body w1 = (r2, w2)"
    and i: "item \<in> set (line_items pl)" "call_sign_value item \<noteq> None"
  shows "\<exists>new. s3_puts w2 = s3_puts w @ new \<and>
    (\<forall>p\<in>set new. put_bucket p = AWS_DESIGNS_BUCKET e \<and>
       (\<exists>item\<in>set (line_items pl). call_sign_value item \<noteq> None \<and> (\<exists>k.
          put_key p = design_key (order_name pl) (item_id item) (date_now e k))))"
proof -
  from make_design_zip_world [OF m] have 1: "s3_puts w1 = s3_puts w" by simp
  from upload_design_world [OF u] have
    "s3_puts w2 = s3_puts w1 \<or> s3_puts w2 = s3_puts w1 @
       [\<lparr>put_bucket = AWS_DESIGNS_BUCKET e,
         put_key = design_key (order_name pl) (item_id item) (date_now e (clock_reads w1)),
         put_body = body, put_content_type = ''application/zip''\<rparr>]"
    by blast
  then show ?thesis
  proof
    assume "s3_puts w2 = s3_puts w1"
    with 1 show ?thesis by (intro exI [of _ "[]"]) simp
  next
    assume "s3_puts w2 = s3_puts w1 @
       [\<lparr>put_bucket = AWS_DESIGNS_BUCKET e,
         put_key = design_key (order_name pl) (item_id item) (date_now e (clock_reads w1)),
         put_body = body, put_content_type = ''application/zip''\<rparr>]"
    with 1 i show ?thesis
      by (intro exI [of _ "[\<lparr>put_bucket = AWS_DESIGNS_BUCKET e,
         put_key = design_key (order_name pl) (item_id item) (date_now e (clock_reads w1)),
         put_body = body, put_content_type = ''application/zip''\<rparr>]"]) auto
  qed
qed

lemma webhook_item_puts:
  assumes "item \<in> set (line_items pl)" "call_sign_value item = Some cs"
  shows "\<exists>new. s3_puts (snd (snd (webhook_item e pl item cs v w))) = s3_puts w @ new \<and>
    (\<forall>p\<in>set new. put_bucket p = AWS_DESIGNS_BUCKET e \<and>
       (\<exists>item\<in>set (line_items pl). call_sign_value item \<noteq> None \<and> (\<exists>k.
          put_key p = design_key (order_name pl) (item_id item) (date_now e k))))"
proof (cases "variant_title item")
  case None
  then show ?thesis by (simp add: webhook_item_def)
next
  case (Some vt)
  obtain r1 w1 where m: "make_design_zip e (templateKey_webhook (item_title item) vt) cs w = (r1, w1)"
    by (cases "make_design_zip e (templateKey_webhook (item_title item) vt) cs w")
  show ?thesis
  proof (cases r1)
    case (Inl err)
    with Some m make_design_zip_world [OF m] show ?thesis
      by (simp add: webhook_item_def)
  next
    case (Inr buf)
    obtain r2 w2 where u: "upload_design e pl item buf w1 = (r2, w2)"
      by (cases "upload_design e pl item buf w1")
    from assms have "call_sign_value item \<noteq> None" by simp
    from item_steps_puts [OF m u assms(1) this] Some m Inr u show ?thesis
      by (cases r2) (simp_all add: webhook_item_def)
  qed
qed

lemma recovery_item_puts:
  assumes "item \<in> set (line_items pl)" "call_sign_value item = Some cs"
  shows "\<exists>new. s3_puts (snd (snd (recovery_item e pl item cs v w))) = s3_puts w @ new \<and>
    (\<forall>p\<in>set new. put_bucket p = AWS_DESIGNS_BUCKET e \<and>
       (\<exists>item\<in>set (line_items pl). call_sign_value item \<noteq> None \<and> (\<exists>k.
          put_key p = design_key (order_name pl) (item_id item) (date_now e k))))"
proof (cases "variant_title item")
  case None
  then show ?thesis by (simp add: recovery_item_def)
next
  case (Some vt)
  obtain r1 w1 where m: "make_design_zip e (templateKey_recovery (item_title item) vt) cs w = (r1, w1)"
    by (cases "make_design_zip e (templateKey_recovery (item_title item) vt) cs w")
  show ?thesis
  proof (cases r1)
    case (Inl err)
    with Some m make_design_zip_world [OF m] show ?thesis
      by (simp add: recovery_item_def)
  next
    case (Inr buf)
    obtain r2 w2 where u: "upload_design e pl item buf w1 = (r2, w2)"
      by (cases "upload_design e pl item buf w1")
    from assms have "call_sign_value item \<noteq> None" by simp
    from item_steps_puts [OF m u assms(1) this] Some m Inr u show ?thesis
      by (cases r2) (simp_all add: recovery_item_def)
  qed
qed









section \<open>A failing item (C1)\<close>

text \<open>
  An order with two custom items. The store has no template for the first, a mug; it has
  one for the second, a cap. The fetch for the mug fails, and that is all that happens:
  the cap is never fetched, nothing is written and no mutation is sent. The cap alone in
  an order is annotated.
\<close>

theorem item_failure_counterexample:
  "webhookHandler example_env
      (example_order ''#1001'' [custom_item ''Mug'' ''K2XYZ'', custom_item ''Classic Cap'' ''N1ABC''])
      empty_world
     = empty_world\<lparr>s3_gets := [(''tpl'', ''MUG_FOR_LIGHT.zip'')],
         console_errors := [GetObjectFailed ''MUG_FOR_LIGHT.zip'']\<rparr>
   \<and> processOrderPayload example_env
      (example_order ''#1001'' [custom_item ''Mug'' ''K2XYZ'', custom_item ''Classic Cap'' ''N1ABC''])
      empty_world
     = empty_world\<lparr>s3_gets := [(''tpl'', ''MUG_FOR_LIGHT.zip'')],
         console_errors := [GetObjectFailed ''MUG_FOR_LIGHT.zip'']\<rparr>
   \<and> length (mutations (webhookHandler example_env
        (example_order ''#1001'' [custom_item ''Classic Cap'' ''N1ABC'']) empty_world)) = 1
   \<and> length (mutations (processOrderPayload example_env
        (example_order ''#1001'' [custom_item ''Classic Cap'' ''N1ABC'']) empty_world)) = 1"
  by code_simp

text \<open>
  C1, as the code has it. The one \<^verbatim>\<open>try\<close> block encloses the loop and the annotation
  step. When the items before \<open>item\<close> are processed without error and the body fails on
  \<open>item\<close>, the handler ends in the world the failing body left, with the error reported:
  the line items after it are not processed and no order mutation is sent. What was
  written for the items before it stays written.
\<close>

theorem item_failure_aborts_order:
  "(line_items pl = pre @ item # post
      \<and> for_each_item (webhook_item e pl) pre
            \<lparr>itemIndex = 0, designLinks = [], dynamicTags = []\<rparr> w = (None, v1, w1)
      \<and> call_sign_value item = Some callSign
      \<and> webhook_item e pl item callSign v1 w1 = (Some err, v2, w2)
     \<longrightarrow> webhookHandler e pl w = log_error err w2
         \<and> mutations (webhookHandler e pl w) = mutations w
         \<and> prefix (s3_puts w1) (s3_puts (webhookHandler e pl w)))
   \<and> (line_items pl = pre @ item # post
      \<and> for_each_item (recovery_item e pl) pre
            \<lparr>itemIndex = 0, designLinks = [],
             dynamicTags = [''has_custom_design'', ''manual_recovery'']\<rparr> w = (None, v1, w1)
      \<and> call_sign_value item = Some callSign
      \<and> recovery_item e pl item callSign v1 w1 = (Some err, v2, w2)
     \<longrightarrow> processOrderPayload e pl w = log_error err w2
         \<and> mutations (processOrderPayload e pl w) = mutations w
         \<and> prefix (s3_puts w1) (s3_puts (processOrderPayload e pl w)))"
proof (intro conjI impI)
  assume h: "line_items pl = pre @ item # post
      \<and> for_each_item (webhook_item e pl) pre
            \<lparr>itemIndex = 0, designLinks = [], dynamicTags = []\<rparr> w = (None, v1, w1)
      \<and> call_sign_value item = Some callSign
      \<and> webhook_item e pl item callSign v1 w1 = (Some err, v2, w2)"
  then have l: "webhook_loop e pl w = (Some err, v2, w2)"
    by (simp add: webhook_loop_def for_each_item_fails_at)
  then show r: "webhookHandler e pl w = log_error err w2"
    by (simp add: webhookHandler_def)
  from l webhook_loop_mutations [of e pl w] have "mutations w2 = mutations w"
    by simp
  with r show "mutations (webhookHandler e pl w) = mutations w"
    by (simp add: log_error_mutations)
  from h have "item \<in> set (line_items pl)" by simp
  from webhook_item_puts [OF this, of callSign e v1 w1] h
  have "prefix (s3_puts w1) (s3_puts w2)" by (auto simp: prefix_def)
  with r show "prefix (s3_puts w1) (s3_puts (webhookHandler e pl w))"
    by (simp add: log_error_def)
next
  assume h: "line_items pl = pre @ item # post
      \<and> for_each_item (recovery_item e pl) pre
            \<lparr>itemIndex = 0, designLinks = [],
             dynamicTags = [''has_custom_design'', ''manual_recovery'']\<rparr> w = (None, v1, w1)
      \<and> call_sign_value item = Some callSign
      \<and> recovery_item e pl item callSign v1 w1 = (Some err, v2, w2)"
  then have l: "recovery_loop e pl w = (Some err, v2, w2)"
    by (simp add: recovery_loop_def for_each_item_fails_at)
  then show r: "processOrderPayload e pl w = log_error err w2"
    by (simp add: processOrderPayload_def)
  from l recovery_loop_mutations [of e pl w] have "mutations w2 = mutations w"
    by simp
  with r show "mutations (processOrderPayload e pl w) = mutations w"
    by (simp add: log_error_mutations)
  from h have "item \<in> set (line_items pl)" by simp
  from recovery_item_puts [OF this, of callSign e v1 w1] h
  have "prefix (s3_puts w1) (s3_puts w2)" by (auto simp: prefix_def)
  with r show "prefix (s3_puts w1) (s3_puts (processOrderPayload e pl w))"
    by (simp add: log_error_def)
qed

text \<open>A plain item, then the mug without a template, then the cap.\<close>

theorem item_failure_aborts_order_witness:
  "webhookHandler example_env
      (example_order ''#1001''
         [plain_item, custom_item ''Mug'' ''K2XYZ'', custom_item ''Classic Cap'' ''N1ABC''])
      empty_world
     = log_error (GetObjectFailed ''MUG_FOR_LIGHT.zip'')
         (empty_world\<lparr>s3_gets := [(''tpl'', ''MUG_FOR_LIGHT.zip'')]\<rparr>)
   \<and> processOrderPayload example_env
      (example_order ''#1001''
         [plain_item, custom_item ''Mug'' ''K2XYZ'', custom_item ''Classic Cap'' ''N1ABC''])
      empty_world
     = log_error (GetObjectFailed ''MUG_FOR_LIGHT.zip'')
         (empty_world\<lparr>s3_gets := [(''tpl'', ''MUG_FOR_LIGHT.zip'')]\<rparr>)"
proof -
  let ?pl = "example_order ''#1001''
         [plain_item, custom_item ''Mug'' ''K2XYZ'', custom_item ''Classic Cap'' ''N1ABC'']"
  let ?v0 = "\<lparr>itemIndex = 0, designLinks = [], dynamicTags = []\<rparr>"
  let ?r0 = "\<lparr>itemIndex = 0, designLinks = [],
             dynamicTags = [''has_custom_design'', ''manual_recovery'']\<rparr>"
  let ?w2 = "empty_world\<lparr>s3_gets := [(''tpl'', ''MUG_FOR_LIGHT.zip'')]\<rparr>"
  have l: "line_items ?pl = [plain_item] @ custom_item ''Mug'' ''K2XYZ''
      # [custom_item ''Classic Cap'' ''N1ABC'']"
    by (simp add: example_order_def)
  have p: "call_sign_value plain_item = None"
    by code_simp
  have c: "call_sign_value (custom_item ''Mug'' ''K2XYZ'') = Some ''K2XYZ''"
    by code_simp
  have a1: "for_each_item (webhook_item example_env ?pl) [plain_item] ?v0 empty_world
      = (None, ?v0, empty_world)"
    using p by simp
  have a2: "webhook_item example_env ?pl (custom_item ''Mug'' ''K2XYZ'') ''K2XYZ'' ?v0 empty_world
      = (Some (GetObjectFailed ''MUG_FOR_LIGHT.zip''), ?v0\<lparr>itemIndex := 1\<rparr>, ?w2)"
    by code_simp
  have b1: "for_each_item (recovery_item example_env ?pl) [plain_item] ?r0 empty_world
      = (None, ?r0, empty_world)"
    using p by simp
  have b2: "recovery_item example_env ?pl (custom_item ''Mug'' ''K2XYZ'') ''K2XYZ'' ?r0 empty_world
      = (Some (GetObjectFailed ''MUG_FOR_LIGHT.zip''),
         ?r0\<lparr>itemIndex := 1,
           dynamicTags := [''has_custom_design'', ''manual_recovery'', ''White/L/K2XYZ'']\<rparr>,
         ?w2)"
    by code_simp
  note t = item_failure_aborts_order [of ?pl "[plain_item]" "custom_item ''Mug'' ''K2XYZ''"
      "[custom_item ''Classic Cap'' ''N1ABC'']" example_env empty_world _ empty_world
      "''K2XYZ''" "GetObjectFailed ''MUG_FOR_LIGHT.zip''" _ ?w2]
  from t [of ?v0 "?v0\<lparr>itemIndex := 1\<rparr>"] l c a1 a2
  have 1: "webhookHandler example_env ?pl empty_world
      = log_error (GetObjectFailed ''MUG_FOR_LIGHT.zip'') ?w2"
    by blast
  from t [of ?r0 "?r0\<lparr>itemIndex := 1,
           dynamicTags := [''has_custom_design'', ''manual_recovery'', ''White/L/K2XYZ'']\<rparr>"]
    l c b1 b2
  have 2: "processOrderPayload example_env ?pl empty_world
      = log_error (GetObjectFailed ''MUG_FOR_LIGHT.zip'') ?w2"
    by blast
  from 1 2 show ?thesis by blast
qed

section \<open>The replay loop skips tagged orders (C7)\<close>

text \<open>
  C7. In the loop of \<open>main\<close>, an order whose tags contain \<open>has_custom_design\<close> is
  skipped: the only thing the iteration does is the order query, so no template is
  fetched, nothing is written and no mutation is sent, and the loop goes on with the
  rest of the list. This holds for every processing function, so for both revisions of
  the script.
\<close>

theorem tagged_order_skipped:
  assumes "orderName \<noteq> []"
    and "gql_query e w orderName = Order orderNode"
    and "''has_custom_design'' \<in> set (order_tags orderNode)"
  shows "main_loop process e (orderName # rest) w
           = main_loop process e rest (w\<lparr>queries := queries w @ [''name:'' @ orderName]\<rparr>)
         \<and> s3_gets (w\<lparr>queries := queries w @ [''name:'' @ orderName]\<rparr>) = s3_gets w
         \<and> s3_puts (w\<lparr>queries := queries w @ [''name:'' @ orderName]\<rparr>) = s3_puts w
         \<and> mutations (w\<lparr>queries := queries w @ [''name:'' @ orderName]\<rparr>) = mutations w"
  using assms by (simp add: Let_def)

text \<open>A file with a header row and the name of the tagged order.\<close>

theorem tagged_order_skipped_witness:
  "''#1001'' \<noteq> []
   \<and> gql_query example_env empty_world ''#1001'' = Order tagged_order
   \<and> ''has_custom_design'' \<in> set (order_tags tagged_order)
   \<and> main example_env (''Order'' @ newline @ ''#1001'' @ newline) empty_world
       = empty_world\<lparr>queries := [''name:#1001'']\<rparr>"
proof -
  have a: "''#1001'' \<noteq> []"
    by simp
  have b: "gql_query example_env empty_world ''#1001'' = Order tagged_order"
    by (simp add: example_env_def)
  have c: "''has_custom_design'' \<in> set (order_tags tagged_order)"
    by (simp add: tagged_order_def)
  have o: "ordersToProcess (''Order'' @ newline @ ''#1001'' @ newline) = [''#1001'']"
    by code_simp
  from tagged_order_skipped [OF a b c, of processOrderPayload "[]"]
  have "main_loop processOrderPayload example_env [''#1001''] empty_world
      = empty_world\<lparr>queries := queries empty_world @ [''name:'' @ ''#1001'']\<rparr>"
    by simp
  with o have "main example_env (''Order'' @ newline @ ''#1001'' @ newline) empty_world
       = empty_world\<lparr>queries := [''name:#1001'']\<rparr>"
    by (simp add: main_def empty_world_def)
  with a b c show ?thesis by blast
qed

section \<open>Links and tags of a run without error\<close>

text \<open>
  What a body that ends without error has done to the variables of the loop: one more
  on the counter, one more link, and on the replay path one more tag.
\<close>

lemma recovery_item_success:
  assumes "recovery_item e pl item cs v w = (None, v', w')"
  shows "\<exists>vt url. variant_title item = Some vt
    \<and> v' = v\<lparr>itemIndex := Suc (itemIndex v),
              dynamicTags := dynamicTags v @ [new_tag vt cs],
              designLinks := designLinks v @
                [recovery_link (order_name pl) (Suc (itemIndex v)) (totalCustomItems pl) url]\<rparr>"
  using assms
  by (auto simp: recovery_item_def Let_def split: option.splits prod.splits sum.splits)

lemma webhook_item_success:
  assumes "webhook_item e pl item cs v w = (None, v', w')"
  shows "\<exists>url.
    v' = v\<lparr>itemIndex := Suc (itemIndex v),
            designLinks := designLinks v @
              [webhook_link (order_name pl) (Suc (itemIndex v)) (totalCustomItems pl) url]\<rparr>"
  using assms
  by (auto simp: webhook_item_def Let_def split: option.splits prod.splits sum.splits)

lemma recovery_items_success:
  assumes "for_each_item (recovery_item e pl) items v w = (None, v', w')"
  shows "\<exists>tags links.
    dynamicTags v' = dynamicTags v @ tags \<and> designLinks v' = designLinks v @ links
    \<and> length tags = length (filter (\<lambda>i. call_sign_value i \<noteq> None) items)
    \<and> length links = length tags
    \<and> (\<forall>t\<in>set tags. \<exists>item\<in>set items. \<exists>vt cs.
          variant_title item = Some vt \<and> call_sign_value item = Some cs \<and> t = new_tag vt cs)
    \<and> (\<forall>k<length links. \<exists>url.
          links ! k = recovery_link (order_name pl) (itemIndex v + k + 1) (totalCustomItems pl) url)"
  using assms
proof (induction items arbitrary: v w)
  case Nil
  then show ?case by simp
next
  case (Cons item rest)
  show ?case
  proof (cases "call_sign_value item")
    case None
    with Cons.prems have "for_each_item (recovery_item e pl) rest v w = (None, v', w')"
      by simp
    from Cons.IH [OF this] None show ?thesis by auto
  next
    case (Some cs)
    obtain r v1 w1 where b: "recovery_item e pl item cs v w = (r, v1, w1)"
      by (cases "recovery_item e pl item cs v w")
    with Cons.prems Some have r: "r = None"
      and rest: "for_each_item (recovery_item e pl) rest v1 w1 = (None, v', w')"
      by (cases r; simp)+
    from recovery_item_success [of e pl item cs v w v1 w1] b r obtain vt url where
      vt: "variant_title item = Some vt"
      and v1: "v1 = v\<lparr>itemIndex := Suc (itemIndex v),
              dynamicTags := dynamicTags v @ [new_tag vt cs],
              designLinks := designLinks v @
                [recovery_link (order_name pl) (Suc (itemIndex v)) (totalCustomItems pl) url]\<rparr>"
      by blast
    from Cons.IH [OF rest] obtain tags links where
      t: "dynamicTags v' = dynamicTags v1 @ tags"
      and l: "designLinks v' = designLinks v1 @ links"
      and n: "length tags = length (filter (\<lambda>i. call_sign_value i \<noteq> None) rest)"
      and m: "length links = length tags"
      and ts: "\<forall>t\<in>set tags. \<exists>item\<in>set rest. \<exists>vt cs.
          variant_title item = Some vt \<and> call_sign_value item = Some cs \<and> t = new_tag vt cs"
      and ls: "\<forall>k<length links. \<exists>url.
          links ! k = recovery_link (order_name pl) (itemIndex v1 + k + 1) (totalCustomItems pl) url"
      by blast
    let ?tags = "new_tag vt cs # tags"
    let ?links = "recovery_link (order_name pl) (Suc (itemIndex v)) (totalCustomItems pl) url # links"
    have 1: "dynamicTags v' = dynamicTags v @ ?tags" using t v1 by simp
    have 2: "designLinks v' = designLinks v @ ?links" using l v1 by simp
    have 3: "length ?tags = length (filter (\<lambda>i. call_sign_value i \<noteq> None) (item # rest))"
      using n Some by simp
    have 4: "length ?links = length ?tags" using m by simp
    have 5: "\<forall>t\<in>set ?tags. \<exists>i\<in>set (item # rest). \<exists>vt cs.
          variant_title i = Some vt \<and> call_sign_value i = Some cs \<and> t = new_tag vt cs"
      using ts vt Some by auto
    have 6: "\<forall>k<length ?links. \<exists>url.
          ?links ! k = recovery_link (order_name pl) (itemIndex v + k + 1) (totalCustomItems pl) url"
    proof (intro allI impI)
      fix k
      assume k: "k < length ?links"
      show "\<exists>url. ?links ! k
          = recovery_link (order_name pl) (itemIndex v + k + 1) (totalCustomItems pl) url"
      proof (cases k)
        case 0
        then show ?thesis by auto
      next
        case (Suc j)
        with k have "j < length links" by simp
        with ls obtain u where "links ! j
            = recovery_link (order_name pl) (itemIndex v1 + j + 1) (totalCustomItems pl) u"
          by blast
        with Suc v1 show ?thesis by auto
      qed
    qed
    from 1 2 3 4 5 6 show ?thesis by blast
  qed
qed

lemma webhook_items_success:
  assumes "for_each_item (webhook_item e pl) items v w = (None, v', w')"
  shows "\<exists>links.
    designLinks v' = designLinks v @ links
    \<and> length links = length (filter (\<lambda>i. call_sign_value i \<noteq> None) items)
    \<and> (\<forall>k<length links. \<exists>url.
          links ! k = webhook_link (order_name pl) (itemIndex v + k + 1) (totalCustomItems pl) url)"
  using assms
proof (induction items arbitrary: v w)
  case Nil
  then show ?case by simp
next
  case (Cons item rest)
  show ?case
  proof (cases "call_sign_value item")
    case None
    with Cons.prems have "for_each_item (webhook_item e pl) rest v w = (None, v', w')"
      by simp
    from Cons.IH [OF this] None show ?thesis by auto
  next
    case (Some cs)
    obtain r v1 w1 where b: "webhook_item e pl item cs v w = (r, v1, w1)"
      by (cases "webhook_item e pl item cs v w")
    with Cons.prems Some have r: "r = None"
      and rest: "for_each_item (webhook_item e pl) rest v1 w1 = (None, v', w')"
      by (cases r; simp)+
    from webhook_item_success [of e pl item cs v w v1 w1] b r obtain url where
      v1: "v1 = v\<lparr>itemIndex := Suc (itemIndex v),
              designLinks := designLinks v @
                [webhook_link (order_name pl) (Suc (itemIndex v)) (totalCustomItems pl) url]\<rparr>"
      by blast
    from Cons.IH [OF rest] obtain links where
      l: "designLinks v' = designLinks v1 @ links"
      and m: "length links = length (filter (\<lambda>i. call_sign_value i \<noteq> None) rest)"
      and ls: "\<forall>k<length links. \<exists>url.
          links ! k = webhook_link (order_name pl) (itemIndex v1 + k + 1) (totalCustomItems pl) url"
      by blast
    let ?links = "webhook_link (order_name pl) (Suc (itemIndex v)) (totalCustomItems pl) url # links"
    have 2: "designLinks v' = designLinks v @ ?links" using l v1 by simp
    have 4: "length ?links = length (filter (\<lambda>i. call_sign_value i \<noteq> None) (item # rest))"
      using m Some by simp
    have 6: "\<forall>k<length ?links. \<exists>url.
          ?links ! k = webhook_link (order_name pl) (itemIndex v + k + 1) (totalCustomItems pl) url"
    proof (intro allI impI)
      fix k
      assume k: "k < length ?links"
      show "\<exists>url. ?links ! k
          = webhook_link (order_name pl) (itemIndex v + k + 1) (totalCustomItems pl) url"
      proof (cases k)
        case 0
        then show ?thesis by auto
      next
        case (Suc j)
        with k have "j < length links" by simp
        with ls obtain u where "links ! j
            = webhook_link (order_name pl) (itemIndex v1 + j + 1) (totalCustomItems pl) u"
          by blast
        with Suc v1 show ?thesis by auto
      qed
    qed
    from 2 4 6 show ?thesis by blast
  qed
qed

text \<open>
  The two counts. An item that passes the guard of the loop is counted by
  \<open>totalCustomItems\<close>, so the denominator is at least the number of items processed;
  the two agree when no item carries a \<open>call_sign\<close> property whose first value is empty.
\<close>

lemma call_sign_value_has_prop:
  "call_sign_value i = Some cs \<Longrightarrow> has_call_sign_prop i"
  by (auto simp: call_sign_value_def call_sign_prop_def has_call_sign_prop_def list_ex_iff
      find_Some_iff split: option.splits)

lemma custom_items_le_total:
  "length (filter (\<lambda>i. call_sign_value i \<noteq> None) (line_items pl)) \<le> totalCustomItems pl"
proof -
  have "length (filter (\<lambda>i. call_sign_value i \<noteq> None) xs) \<le> length (filter has_call_sign_prop xs)"
    for xs
    by (induction xs) (auto dest: call_sign_value_has_prop)
  then show ?thesis by (simp add: totalCustomItems_def)
qed

lemma custom_items_eq_total:
  assumes "\<forall>i\<in>set (line_items pl). has_call_sign_prop i \<longrightarrow> call_sign_value i \<noteq> None"
  shows "totalCustomItems pl = length (filter (\<lambda>i. call_sign_value i \<noteq> None) (line_items pl))"
proof -
  have "\<forall>i\<in>set xs. has_call_sign_prop i \<longrightarrow> call_sign_value i \<noteq> None \<Longrightarrow>
    length (filter has_call_sign_prop xs) = length (filter (\<lambda>i. call_sign_value i \<noteq> None) xs)"
    for xs
  proof (induction xs)
    case Nil
    show ?case by simp
  next
    case (Cons a xs)
    have "has_call_sign_prop a \<longleftrightarrow> call_sign_value a \<noteq> None"
      using Cons.prems call_sign_value_has_prop [of a] by auto
    with Cons show ?case by simp
  qed
  with assms show ?thesis by (simp add: totalCustomItems_def)
qed

text \<open>
  A run of the replay path in which no item fails: the tags are the two markers followed
  by one tag per item that passed the guard, link \<open>k\<close> has the conditional format with
  index \<open>k + 1\<close> and denominator \<open>totalCustomItems\<close>, and when there is a link the one
  mutation carries these tags and the note built from these links.
\<close>

lemma processOrderPayload_annotation:
  assumes "recovery_loop e pl w = (None, v, w1)"
  shows "\<exists>tags.
    dynamicTags v = [''has_custom_design'', ''manual_recovery''] @ tags
    \<and> length tags = length (filter (\<lambda>i. call_sign_value i \<noteq> None) (line_items pl))
    \<and> length (designLinks v) = length tags
    \<and> (\<forall>t\<in>set tags. \<exists>item\<in>set (line_items pl). \<exists>vt cs.
          variant_title item = Some vt \<and> call_sign_value item = Some cs \<and> t = new_tag vt cs)
    \<and> (\<forall>k<length (designLinks v). \<exists>url.
          designLinks v ! k = recovery_link (order_name pl) (k + 1) (totalCustomItems pl) url)
    \<and> (designLinks v \<noteq> [] \<longrightarrow>
          mutations (processOrderPayload e pl w) = mutations w @
            [\<lparr>mutation_id = admin_graphql_api_id pl, mutation_tags = dynamicTags v,
              mutation_note = recovery_note pl (designLinks v)\<rparr>])"
proof -
  from assms recovery_items_success [of e pl "line_items pl"
      "\<lparr>itemIndex = 0, designLinks = [],
        dynamicTags = [''has_custom_design'', ''manual_recovery'']\<rparr>" w v w1]
  obtain tags links where
    1: "dynamicTags v = [''has_custom_design'', ''manual_recovery''] @ tags"
    and 2: "designLinks v = links"
    and 3: "length tags = length (filter (\<lambda>i. call_sign_value i \<noteq> None) (line_items pl))"
    and 4: "length links = length tags"
    and 5: "\<forall>t\<in>set tags. \<exists>item\<in>set (line_items pl). \<exists>vt cs.
          variant_title item = Some vt \<and> call_sign_value item = Some cs \<and> t = new_tag vt cs"
    and 6: "\<forall>k<length links. \<exists>url.
          links ! k = recovery_link (order_name pl) (k + 1) (totalCustomItems pl) url"
    unfolding recovery_loop_def by auto
  from assms recovery_loop_mutations [of e pl w] have m: "mutations w1 = mutations w"
    by simp
  have 7: "designLinks v \<noteq> [] \<longrightarrow>
          mutations (processOrderPayload e pl w) = mutations w @
            [\<lparr>mutation_id = admin_graphql_api_id pl, mutation_tags = dynamicTags v,
              mutation_note = recovery_note pl (designLinks v)\<rparr>]"
    using assms m
    by (auto simp: processOrderPayload_def recovery_check_def log_error_def Let_def
        split: option.splits)
  from 1 2 3 4 5 6 7 show ?thesis by blast
qed

text \<open>
  The same run on the live path: every link has the counter, and the mutation carries
  the marker tag alone.
\<close>

lemma webhookHandler_annotation:
  assumes "webhook_loop e pl w = (None, v, w1)"
  shows "length (designLinks v) = length (filter (\<lambda>i. call_sign_value i \<noteq> None) (line_items pl))
    \<and> (\<forall>k<length (designLinks v). \<exists>url.
          designLinks v ! k = webhook_link (order_name pl) (k + 1) (totalCustomItems pl) url)
    \<and> (designLinks v \<noteq> [] \<longrightarrow>
          mutations (webhookHandler e pl w) = mutations w @
            [\<lparr>mutation_id = admin_graphql_api_id pl, mutation_tags = [''has_custom_design''],
              mutation_note = webhook_note pl (designLinks v)\<rparr>])"
proof -
  from assms webhook_items_success [of e pl "line_items pl"
      "\<lparr>itemIndex = 0, designLinks = [], dynamicTags = []\<rparr>" w v w1]
  obtain links where
    2: "designLinks v = links"
    and 4: "length links = length (filter (\<lambda>i. call_sign_value i \<noteq> None) (line_items pl))"
    and 6: "\<forall>k<length links. \<exists>url.
          links ! k = webhook_link (order_name pl) (k + 1) (totalCustomItems pl) url"
    unfolding webhook_loop_def by auto
  from assms webhook_loop_mutations [of e pl w] have m: "mutations w1 = mutations w"
    by simp
  have 7: "designLinks v \<noteq> [] \<longrightarrow>
          mutations (webhookHandler e pl w) = mutations w @
            [\<lparr>mutation_id = admin_graphql_api_id pl, mutation_tags = [''has_custom_design''],
              mutation_note = webhook_note pl (designLinks v)\<rparr>]"
    using assms m
    by (auto simp: webhookHandler_def webhook_check_def log_error_def Let_def
        split: option.splits)
  from 2 4 6 7 show ?thesis by blast
qed

section \<open>The counter and the tags at concrete orders (C2, C3, C9)\<close>

text \<open>
  C3 at an order of three line items with a \<open>call_sign\<close> property, the third with the
  empty value. Two items pass the guard and two links are made, but the denominator in
  both is 3: \<open>totalCustomItems\<close> counts the property, whatever its value.
\<close>

theorem denominator_counts_empty_call_sign:
  "designLinks (fst (snd (recovery_loop example_env
      (example_order ''#1001''
         [custom_item ''Classic Cap'' ''N1ABC'', custom_item ''Classic Cap'' ''K2XYZ'',
          custom_item ''Classic Cap'' ''''])
      empty_world)))
     = [''#1001-1/3-https://s3.eu.amazonaws.com/dsg/designs/1001-42-1000.zip;'',
        ''#1001-2/3-https://s3.eu.amazonaws.com/dsg/designs/1001-42-1001.zip;'']
   \<and> designLinks (fst (snd (webhook_loop example_env
      (example_order ''#1001''
         [custom_item ''Classic Cap'' ''N1ABC'', custom_item ''Classic Cap'' ''K2XYZ'',
          custom_item ''Classic Cap'' ''''])
      empty_world)))
     = [''#1001-1/3-https://dsg.s3.eu.amazonaws.com/designs/1001-42-1000.zip;'',
        ''#1001-2/3-https://dsg.s3.eu.amazonaws.com/designs/1001-42-1001.zip;'']
   \<and> map call_sign_value
        [custom_item ''Classic Cap'' ''N1ABC'', custom_item ''Classic Cap'' ''K2XYZ'',
         custom_item ''Classic Cap'' '''']
     = [Some ''N1ABC'', Some ''K2XYZ'', None]"
  by code_simp

text \<open>
  C2 at the scenario of the specification, one custom item and one plain item: the live
  path writes the counter \<open>1/1\<close>, the replay path leaves it out.
\<close>

theorem webhook_single_item_keeps_counter:
  "designLinks (fst (snd (webhook_loop example_env
      (example_order ''#1001'' [custom_item ''Classic Cap'' ''N1ABC'', plain_item])
      empty_world)))
     = [''#1001-1/1-https://dsg.s3.eu.amazonaws.com/designs/1001-42-1000.zip;'']
   \<and> designLinks (fst (snd (recovery_loop example_env
      (example_order ''#1001'' [custom_item ''Classic Cap'' ''N1ABC'', plain_item])
      empty_world)))
     = [''#1001-https://s3.eu.amazonaws.com/dsg/designs/1001-42-1000.zip;'']"
  by code_simp

text \<open>
  C9 at the same order: the live path sends the marker tag alone, the replay path adds
  the recovery marker and the tag of the item.
\<close>

theorem webhook_tags_base_marker_only:
  "map mutation_tags (mutations (webhookHandler example_env
      (example_order ''#1001'' [custom_item ''Classic Cap'' ''N1ABC'', plain_item])
      empty_world))
     = [[''has_custom_design'']]
   \<and> map mutation_tags (mutations (processOrderPayload example_env
      (example_order ''#1001'' [custom_item ''Classic Cap'' ''N1ABC'', plain_item])
      empty_world))
     = [[''has_custom_design'', ''manual_recovery'', ''White/L/N1ABC'']]"
  by code_simp

end
